theory Spec2Isabelle
  imports Main "HOL-Library.Sublist" "HOL-Library.Word"
begin

section \<open>Text\<close>

text \<open>
  Python \<open>str\<close> values are modelled as \<open>string\<close>: lists of characters with code points
  0 to 255. On that range \<open>\d\<close> is exactly \<open>0\<close> to \<open>9\<close>, \<open>\s\<close> and \<open>str.strip\<close> use the
  whitespace set below, and the only characters that \<open>(s|m|h|d)\<close> matches under
  \<open>re.IGNORECASE\<close> are the eight letters \<open>smhdSMHD\<close>. Literals of the source outside
  ASCII (the emoji of the reply texts) are written as their UTF-8 bytes; they are only
  ever copied, never inspected.
\<close>

definition is_space :: "char \<Rightarrow> bool" where
  "is_space c = (of_char c \<in> {9, 10, 11, 12, 13, 28, 29, 30, 31, 32, 133, 160 :: nat})"

definition is_digit :: "char \<Rightarrow> bool" where
  "is_digit c = (of_char c \<in> {48 ..< 58 :: nat})"

definition newline :: char where
  "newline = CHR 0x0A"

definition py_lower_char :: "char \<Rightarrow> char" where
  "py_lower_char c =
     (let n = of_char c :: nat
      in if (65 \<le> n \<and> n \<le> 90) \<or> (192 \<le> n \<and> n \<le> 214) \<or> (216 \<le> n \<and> n \<le> 222)
         then char_of (n + 32) else c)"

definition py_strip :: "string \<Rightarrow> string" where
  "py_strip s = rev (dropWhile is_space (rev (dropWhile is_space s)))"

definition digit_value :: "char \<Rightarrow> int" where
  "digit_value c = int (of_char c) - 48"

text \<open>\<open>int(value)\<close> on a string of decimal digits, most significant digit first.\<close>

definition digits_to_int :: "string \<Rightarrow> int" where
  "digits_to_int ds = foldl (\<lambda>acc c. 10 * acc + digit_value c) 0 ds"

text \<open>\<open>f"{value}"\<close> for an integer: its decimal digits, no leading zero.\<close>

function digits_of :: "int \<Rightarrow> string" where
  "digits_of n =
     (if n < 10 then [char_of (48 + n)]
      else digits_of (n div 10) @ [char_of (48 + n mod 10)])"
  by pat_completeness auto
termination
  by (relation "measure nat") auto

definition py_str_int :: "int \<Rightarrow> string" where
  "py_str_int n = (if n < 0 then CHR ''-'' # digits_of (- n) else digits_of n)"

section \<open>Errors and durations\<close>

datatype py_error = ValueError | OverflowError | TypeError | AttributeError | TransportError

text \<open>
  CPython refuses to convert a decimal string of more than 4300 digits to an integer
  (\<open>sys.int_info.default_max_str_digits\<close>; the program does not change the limit).
\<close>

definition int_max_str_digits :: nat where
  "int_max_str_digits = 4300"

definition py_int :: "string \<Rightarrow> py_error + int" where
  "py_int ds = (if length ds > int_max_str_digits then Inl ValueError else Inr (digits_to_int ds))"

text \<open>
  A \<open>datetime.timedelta\<close> is a whole number of microseconds whose day count has magnitude
  at most 999999999; the constructor raises \<open>OverflowError\<close> beyond that.
\<close>

datatype timedelta = Timedelta (total_microseconds: int)

definition MAX_DELTA_DAYS :: int where
  "MAX_DELTA_DAYS = 999999999"

definition us_per_second :: int where
  "us_per_second = 1000000"

definition us_per_day :: int where
  "us_per_day = 86400 * us_per_second"

definition new_timedelta :: "int \<Rightarrow> py_error + timedelta" where
  "new_timedelta us =
     (if \<bar>us div us_per_day\<bar> > MAX_DELTA_DAYS then Inl OverflowError else Inr (Timedelta us))"

definition timedelta_seconds :: "int \<Rightarrow> py_error + timedelta" where
  "timedelta_seconds v = new_timedelta (v * us_per_second)"

definition timedelta_minutes :: "int \<Rightarrow> py_error + timedelta" where
  "timedelta_minutes v = new_timedelta (v * 60 * us_per_second)"

definition timedelta_hours :: "int \<Rightarrow> py_error + timedelta" where
  "timedelta_hours v = new_timedelta (v * 3600 * us_per_second)"

definition timedelta_days :: "int \<Rightarrow> py_error + timedelta" where
  "timedelta_days v = new_timedelta (v * us_per_day)"

text \<open>Truth value of a \<open>timedelta\<close>: false exactly for the zero duration.\<close>

definition timedelta_truthy :: "timedelta \<Rightarrow> bool" where
  "timedelta_truthy d = (total_microseconds d \<noteq> 0)"

section \<open>Reminder parsing\<close>

text \<open>
  \<open>re.compile(r"^\s*(\d+)\s*(s|m|h|d)\s*(.*)", re.IGNORECASE).search(text)\<close>.
  The pattern is anchored, so the search is a match at position 0. Whitespace, digits and
  unit letters are pairwise disjoint, so no shorter choice of a greedy \<open>\s*\<close> or \<open>\d+\<close>
  can succeed where the longest fails, and the match is the greedy left-to-right scan
  below. \<open>.\<close> does not match a line feed, so the third group stops at the first one.
  The result is the triple of groups, or \<open>None\<close>.
\<close>

definition unit_matches :: "char \<Rightarrow> bool" where
  "unit_matches c = (c \<in> set ''smhdSMHD'')"

definition pattern_search :: "string \<Rightarrow> (string \<times> char \<times> string) option" where
  "pattern_search text =
     (let s1 = dropWhile is_space text;
          valu = takeWhile is_digit s1;
          s2 = dropWhile is_space (dropWhile is_digit s1)
      in if valu = [] then None
         else (case s2 of
                 [] \<Rightarrow> None
               | u # s3 \<Rightarrow>
                   if unit_matches u
                   then Some (valu, u, takeWhile (\<lambda>c. c \<noteq> newline) (dropWhile is_space s3))
                   else None))"

definition default_message :: string where
  "default_message = ''Here's your reminder!''"

text \<open>
  \<open>parse_reminder\<close>: \<open>Inr None\<close> is the triple \<open>(None, None, None)\<close>, \<open>Inr (Some (delay,
  message, original_time_string))\<close> a successful parse, \<open>Inl e\<close> an exception raised by
  \<open>int\<close> or by the \<open>timedelta\<close> constructor.
\<close>

definition parse_reminder :: "string \<Rightarrow> py_error + (timedelta \<times> string \<times> string) option" where
  "parse_reminder text =
     (case pattern_search text of
        None \<Rightarrow> Inr None
      | Some (valu, unit0, message) \<Rightarrow>
          (case py_int valu of
             Inl e \<Rightarrow> Inl e
           | Inr v \<Rightarrow>
               (let original_time_string = py_str_int v @ [py_lower_char unit0];
                    unit = py_lower_char unit0;
                    delta =
                      (if unit = CHR ''s'' then map_sum id Some (timedelta_seconds v)
                       else if unit = CHR ''m'' then map_sum id Some (timedelta_minutes v)
                       else if unit = CHR ''h'' then map_sum id Some (timedelta_hours v)
                       else if unit = CHR ''d'' then map_sum id Some (timedelta_days v)
                       else Inr None)
                in (case delta of
                      Inl e \<Rightarrow> Inl e
                    | Inr None \<Rightarrow> Inr None
                    | Inr (Some d) \<Rightarrow>
                        (let message' = (if py_strip message = [] then default_message else message)
                         in Inr (Some (d, py_strip message', original_time_string)))))))"

text \<open>
  The helpers below name the quantities the statements about the parser use: the length
  of one unit in microseconds, the captured message after trimming, and, following the
  grammar of the specification, the text that follows the unit character.
\<close>

definition unit_microseconds :: "char \<Rightarrow> int" where
  "unit_microseconds u =
     (if py_lower_char u = CHR ''s'' then us_per_second
      else if py_lower_char u = CHR ''m'' then 60 * us_per_second
      else if py_lower_char u = CHR ''h'' then 3600 * us_per_second
      else us_per_day)"

definition first_line_trimmed :: "string \<Rightarrow> string" where
  "first_line_trimmed rem = py_strip (takeWhile (\<lambda>c. c \<noteq> newline) (dropWhile is_space rem))"

definition remainder_after_unit :: "string \<Rightarrow> string" where
  "remainder_after_unit text =
     drop 1 (dropWhile is_space (dropWhile is_digit (dropWhile is_space text)))"

section \<open>Configuration, keys and the bot's actor\<close>

definition HOST :: string where
  "HOST = ''apsig.amase.cc''"

definition USER_ID :: string where
  "USER_ID = ''reminder''"

definition actor_id :: string where
  "actor_id = ''https://'' @ HOST @ ''/actor''"

definition actor_preferredUsername :: string where
  "actor_preferredUsername = USER_ID"

definition actor_publicKey_id :: string where
  "actor_publicKey_id = ''https://'' @ HOST @ ''/actor#main-key''"

text \<open>
  The private key is held as the PEM text that the key file stores. Signing and
  verification happen inside the transport library and are not part of this program.
\<close>

type_synonym private_key = string

record actor_key =
  key_id :: string
  private_key :: private_key

definition get_keys_for_actor :: "private_key \<Rightarrow> string \<Rightarrow> actor_key list" where
  "get_keys_for_actor pk identifier =
     (if identifier = actor_id then [\<lparr>key_id = actor_publicKey_id, private_key = pk\<rparr>] else [])"

section \<open>Activities\<close>

text \<open>A remote actor as far as the program reads it: \<open>id\<close>, \<open>preferredUsername\<close>, \<open>url\<close>.\<close>

record remote_actor =
  ra_id :: string
  ra_preferredUsername :: "string option"
  ra_url :: "string option"

text \<open>An f-string prints \<open>None\<close> for an absent attribute.\<close>

definition py_format :: "string option \<Rightarrow> string" where
  "py_format x = (case x of None \<Rightarrow> ''None'' | Some s \<Rightarrow> s)"

text \<open>Incoming activities, as far as the handlers inspect them.\<close>

datatype in_tag = MentionTag (tag_href: "string option") | OtherTag

record in_note =
  in_id :: "string option"
  in_content :: "string option"
  in_tag :: "in_tag list option"

datatype actor_ref = ActorObject remote_actor | ActorUri string

datatype in_object = NoteObject in_note | OtherObject

datatype in_activity =
    CreateIn actor_ref in_object
  | FollowIn actor_ref
  | OtherIn

text \<open>Activities the program creates.\<close>

record mention =
  href :: string
  name :: string

record note_object =
  note_id :: string
  attributedTo :: string
  inReplyTo :: "string option"
  content :: string
  note_to :: "string list"
  note_tag :: "mention list"

record create_activity =
  create_id :: string
  create_actor :: string
  create_object :: note_object
  create_to :: "string list"

record accept_activity =
  accept_id :: string
  accept_actor :: string
  accept_object :: in_activity

datatype activity =
    NoteActivity note_object
  | CreateActivity create_activity
  | AcceptActivity accept_activity

fun activity_id :: "activity \<Rightarrow> string" where
  "activity_id (NoteActivity n) = note_id n"
| "activity_id (CreateActivity c) = create_id c"
| "activity_id (AcceptActivity a) = accept_id a"

section \<open>UUIDs and activity URIs\<close>

text \<open>
  A \<open>uuid.UUID\<close> is a 128-bit value; \<open>str\<close> prints its 32 lower-case hexadecimal digits in
  groups of 8, 4, 4, 4 and 12.
\<close>

type_synonym uuid = "128 word"

definition hex_digit :: "nat \<Rightarrow> char" where
  "hex_digit n = ''0123456789abcdef'' ! (n mod 16)"

definition hex32 :: "uuid \<Rightarrow> string" where
  "hex32 u = map (\<lambda>i. hex_digit (unat (drop_bit (4 * (31 - i)) u) mod 16)) [0 ..< 32]"

definition uuid_str :: "uuid \<Rightarrow> string" where
  "uuid_str u =
     (let h = hex32 u
      in take 8 h @ ''-'' @ take 4 (drop 8 h) @ ''-'' @ take 4 (drop 12 h) @ ''-'' @
         take 4 (drop 16 h) @ ''-'' @ drop 20 h)"

definition notes_uri :: "uuid \<Rightarrow> string" where
  "notes_uri u = ''https://'' @ HOST @ ''/notes/'' @ uuid_str u"

definition creates_uri :: "uuid \<Rightarrow> string" where
  "creates_uri u = ''https://'' @ HOST @ ''/creates/'' @ uuid_str u"

text \<open>
  The shape \<open>scheme://host/<kind>/<uuid>\<close> of the specification, as a test on a URI: the
  scheme and host of this server, one path segment for the kind, one for the UUID text.
\<close>

definition is_hex_char :: "char \<Rightarrow> bool" where
  "is_hex_char c = (c \<in> set ''0123456789abcdef'')"

definition is_uuid_text :: "string \<Rightarrow> bool" where
  "is_uuid_text s =
     (length s = 36 \<and>
      list_all is_hex_char (take 8 s) \<and> take 1 (drop 8 s) = ''-'' \<and>
      list_all is_hex_char (take 4 (drop 9 s)) \<and> take 1 (drop 13 s) = ''-'' \<and>
      list_all is_hex_char (take 4 (drop 14 s)) \<and> take 1 (drop 18 s) = ''-'' \<and>
      list_all is_hex_char (take 4 (drop 19 s)) \<and> take 1 (drop 23 s) = ''-'' \<and>
      list_all is_hex_char (drop 24 s))"

definition has_activity_uri_shape :: "string \<Rightarrow> bool" where
  "has_activity_uri_shape uri =
     (let p = ''https://'' @ HOST @ ''/'';
          rest = drop (length p) uri;
          kind = takeWhile (\<lambda>c. c \<noteq> CHR ''/'') rest;
          after = dropWhile (\<lambda>c. c \<noteq> CHR ''/'') rest
      in prefix p uri \<and> kind \<noteq> [] \<and> after \<noteq> [] \<and> is_uuid_text (drop 1 after))"

section \<open>Process state and environment\<close>

text \<open>
  The two module-level dictionaries, together with what the handlers do to the outside:
  \<open>tasks\<close> are the reminder tasks created with \<open>asyncio.create_task\<close> that have not fired
  yet, \<open>sent\<close> records every call of \<open>ctx.send\<close> in order, \<open>uuid_calls\<close> counts the calls of
  \<open>uuid.uuid4\<close>, and \<open>store_reads\<close> counts how often a fetch endpoint reached its lookup in
  \<open>ACTIVITY_STORE\<close>. The last three are observers; the program never reads them.
\<close>

record cache_entry =
  ce_activity :: activity
  ce_timestamp :: int

record delivery =
  d_keys :: "actor_key list"
  d_target :: remote_actor
  d_activity :: activity

record reminder_task =
  t_delay :: timedelta
  t_message :: string
  t_target :: remote_actor
  t_note :: in_note

record state =
  ACTIVITY_STORE :: "string \<rightharpoonup> activity"
  CACHE :: "string \<rightharpoonup> cache_entry"
  tasks :: "reminder_task list"
  sent :: "delivery list"
  uuid_calls :: nat
  store_reads :: nat

definition initial_state :: state where
  "initial_state =
     \<lparr>ACTIVITY_STORE = Map.empty, CACHE = Map.empty, tasks = [], sent = [],
      uuid_calls = 0, store_reads = 0\<rparr>"

text \<open>
  What the libraries and the network answer during one handler run. \<open>fetch\<close> is
  \<open>client.actor.fetch\<close>: it raises, returns \<open>None\<close>, or returns an actor. \<open>send_returns\<close>
  tells whether \<open>ctx.send\<close> returns normally or raises. \<open>uuid4 k\<close> is the value of the
  \<open>k\<close>-th call of \<open>uuid.uuid4\<close>. \<open>format_actor\<close> is the text an f-string prints for an actor
  object, which the model class of the library decides.
\<close>

datatype fetch_result = FetchRaises | FetchNone | Fetched remote_actor

record env =
  fetch :: "actor_ref \<Rightarrow> fetch_result"
  send_returns :: bool
  uuid4 :: "nat \<Rightarrow> uuid"
  format_actor :: "remote_actor \<Rightarrow> string"

record webfinger_resource =
  wf_username :: "string option"
  wf_host :: "string option"
  wf_url :: "string option"

record webfinger_link =
  wl_rel :: string
  wl_type :: string
  wl_href :: string

datatype response =
    StatusResponse nat
  | ActivityResponse activity
  | WebfingerResponse webfinger_resource "webfinger_link list"
  | NotFoundJSON

fun status_code :: "response \<Rightarrow> nat" where
  "status_code (StatusResponse n) = n"
| "status_code (ActivityResponse a) = 200"
| "status_code (WebfingerResponse subject links) = 200"
| "status_code NotFoundJSON = 404"

text \<open>
  \<open>ctx.send(keys, target, activity)\<close>: the attempt is recorded whether or not the call
  returns normally.
\<close>

definition ctx_send :: "env \<Rightarrow> actor_key list \<Rightarrow> remote_actor \<Rightarrow> activity \<Rightarrow> state \<Rightarrow> (py_error + unit) \<times> state" where
  "ctx_send e keys target a st =
     ((if send_returns e then Inr () else Inl TransportError),
      st\<lparr>sent := sent st @ [\<lparr>d_keys = keys, d_target = target, d_activity = a\<rparr>]\<rparr>)"

section \<open>The reminder task\<close>

definition bell :: string where
  "bell = [CHR 0xF0, CHR 0x9F, CHR 0x94, CHR 0x94]"

definition reminder_content :: "remote_actor \<Rightarrow> string \<Rightarrow> string" where
  "reminder_content target message =
     ''<p>'' @ bell @ '' Reminder for '' @
     (''<p><span class=\"h-card\" translate=\"no\"><a href=\"'' @ py_format (ra_url target) @
      ''\" class=\"u-url mention\">@<span>'' @ py_format (ra_preferredUsername target) @
      ''</span></a></span></p>'') @
     '': '' @ message @ ''</p>''"

text \<open>
  \<open>send_reminder\<close> from the moment \<open>asyncio.sleep\<close> returns. The result pairs what the task
  ended with (\<open>Inl\<close> an exception that left it, \<open>Inr ()\<close> a normal return) with the state it
  leaves behind. The re-fetch sits in \<open>try: ... except Exception: pass\<close>, so a raised
  exception keeps the old \<open>target_actor\<close>; a returned value, \<open>None\<close> included, replaces it.
\<close>

definition send_reminder :: "env \<Rightarrow> private_key \<Rightarrow> state \<Rightarrow> reminder_task \<Rightarrow> (py_error + unit) \<times> state" where
  "send_reminder e pk st task =
     (let target_actor =
            (case fetch e (ActorUri (ra_id (t_target task))) of
               FetchRaises \<Rightarrow> Some (t_target task)
             | FetchNone \<Rightarrow> None
             | Fetched a \<Rightarrow> Some a)
      in case target_actor of
           None \<Rightarrow> (Inl AttributeError, st)
         | Some target \<Rightarrow>
             (let mention_tag = \<lparr>href = ra_id target,
                                 name = ''@'' @ py_format (ra_preferredUsername target)\<rparr>;
                  reminder_note =
                    \<lparr>note_id = notes_uri (uuid4 e (uuid_calls st)),
                     attributedTo = actor_id,
                     inReplyTo = in_id (t_note task),
                     content = reminder_content target (t_message task),
                     note_to = [ra_id target],
                     note_tag = [mention_tag]\<rparr>;
                  reminder_create =
                    \<lparr>create_id = creates_uri (uuid4 e (Suc (uuid_calls st))),
                     create_actor = actor_id,
                     create_object = reminder_note,
                     create_to = [ra_id target]\<rparr>;
                  st1 = st\<lparr>uuid_calls := uuid_calls st + 2\<rparr>;
                  st2 = st1\<lparr>ACTIVITY_STORE :=
                          (ACTIVITY_STORE st1)(note_id reminder_note \<mapsto> NoteActivity reminder_note)\<rparr>;
                  st3 = st2\<lparr>ACTIVITY_STORE :=
                          (ACTIVITY_STORE st2)(create_id reminder_create \<mapsto> CreateActivity reminder_create)\<rparr>;
                  keys = get_keys_for_actor pk (''https://'' @ HOST @ ''/actor'')
              in ctx_send e keys target (CreateActivity reminder_create) st3))"

section \<open>Endpoints\<close>

definition webfinger_endpoint :: "webfinger_resource \<Rightarrow> response" where
  "webfinger_endpoint acct =
     (let link = \<lparr>wl_rel = ''self'', wl_type = ''application/activity+json'', wl_href = actor_id\<rparr>
      in if wf_url acct = None \<or> wf_url acct = Some []
         then (if wf_username acct = Some USER_ID \<and> wf_host acct = Some HOST
               then WebfingerResponse acct [link] else NotFoundJSON)
         else (if wf_url acct = Some (''https://'' @ HOST @ ''/actor'')
               then WebfingerResponse acct [link] else NotFoundJSON))"

text \<open>
  Instants (\<open>datetime.now()\<close>) and their differences are whole microseconds.
  \<open>CACHE_TTL = timedelta(minutes=5)\<close>.
\<close>

definition CACHE_TTL :: int where
  "CACHE_TTL = 5 * 60 * us_per_second"

text \<open>
  The fetch endpoints read the clock at most twice: \<open>now_check\<close> is the reading compared
  with the cached timestamp, \<open>now_insert\<close> the one stored with a new cache entry.
\<close>

definition get_note_endpoint :: "state \<Rightarrow> uuid \<Rightarrow> int \<Rightarrow> int \<Rightarrow> response \<times> state" where
  "get_note_endpoint st the_note_id now_check now_insert =
     (let note_uri = ''https://'' @ HOST @ ''/notes/'' @ uuid_str the_note_id;
          cached = (case CACHE st note_uri of
                      None \<Rightarrow> None
                    | Some ce \<Rightarrow> if now_check - ce_timestamp ce < CACHE_TTL
                                then Some (ce_activity ce) else None)
      in case cached of
           Some a \<Rightarrow> (ActivityResponse a, st)
         | None \<Rightarrow>
             (let st1 = st\<lparr>store_reads := store_reads st + 1\<rparr>
              in case ACTIVITY_STORE st1 note_uri of
                   Some activity \<Rightarrow>
                     (ActivityResponse activity,
                      st1\<lparr>CACHE := (CACHE st1)(note_uri \<mapsto>
                            \<lparr>ce_activity = activity, ce_timestamp = now_insert\<rparr>)\<rparr>)
                 | None \<Rightarrow> (StatusResponse 404, st1)))"

definition get_create_endpoint :: "state \<Rightarrow> uuid \<Rightarrow> int \<Rightarrow> int \<Rightarrow> response \<times> state" where
  "get_create_endpoint st the_create_id now_check now_insert =
     (let create_uri = ''https://'' @ HOST @ ''/creates/'' @ uuid_str the_create_id;
          cached = (case CACHE st create_uri of
                      None \<Rightarrow> None
                    | Some ce \<Rightarrow> if now_check - ce_timestamp ce < CACHE_TTL
                                then Some (ce_activity ce) else None)
      in case cached of
           Some a \<Rightarrow> (ActivityResponse a, st)
         | None \<Rightarrow>
             (let st1 = st\<lparr>store_reads := store_reads st + 1\<rparr>
              in case ACTIVITY_STORE st1 create_uri of
                   Some activity \<Rightarrow>
                     (ActivityResponse activity,
                      st1\<lparr>CACHE := (CACHE st1)(create_uri \<mapsto>
                            \<lparr>ce_activity = activity, ce_timestamp = now_insert\<rparr>)\<rparr>)
                 | None \<Rightarrow> (StatusResponse 404, st1)))"

section \<open>Inbox handlers\<close>

definition on_follow_activity :: "env \<Rightarrow> private_key \<Rightarrow> state \<Rightarrow> in_activity \<Rightarrow> (py_error + response) \<times> state" where
  "on_follow_activity e pk st activity =
     (case activity of
        FollowIn follower \<Rightarrow>
          (case fetch e (case follower of ActorObject a \<Rightarrow> ActorUri (ra_id a) | ActorUri u \<Rightarrow> ActorUri u) of
             FetchRaises \<Rightarrow> (Inl TransportError, st)
           | FetchNone \<Rightarrow> (Inr (StatusResponse 400), st)
           | Fetched follower_actor \<Rightarrow>
               (let accept =
                      \<lparr>accept_id = ''https://'' @ HOST @ ''/activity/follows/'' @
                                    format_actor e follower_actor,
                       accept_actor = actor_id,
                       accept_object = activity\<rparr>;
                    keys = get_keys_for_actor pk (''https://'' @ HOST @ ''/actor'')
                in case ctx_send e keys follower_actor (AcceptActivity accept) st of
                     (Inl err, st') \<Rightarrow> (Inl err, st')
                   | (Inr _, st') \<Rightarrow> (Inr (StatusResponse 202), st')))
      | _ \<Rightarrow> (Inr (StatusResponse 400), st))"

text \<open>
  \<open>re.sub('<[^<]+?>', '', content)\<close>: a match starts at a less-than sign, takes one
  character other than a less-than sign, then as few further such characters as possible
  up to a greater-than sign. \<open>tag_close\<close> looks for that closing sign after the first
  character of the body and returns the text that follows it.
\<close>

fun tag_close :: "string \<Rightarrow> string option" where
  "tag_close [] = None"
| "tag_close (c # cs) =
     (if c = CHR ''>'' then Some cs else if c = CHR ''<'' then None else tag_close cs)"

function re_sub_tags :: "string \<Rightarrow> string" where
  "re_sub_tags [] = []"
| "re_sub_tags (c # cs) =
     (if c = CHR ''<'' then
        (case cs of
           [] \<Rightarrow> [c]
         | x # xs \<Rightarrow>
             if x = CHR ''<'' then c # re_sub_tags cs
             else (case tag_close xs of
                     Some rest \<Rightarrow> re_sub_tags rest
                   | None \<Rightarrow> c # re_sub_tags cs))
      else c # re_sub_tags cs)"
  by pat_completeness auto
termination
proof -
  have shorter: "tag_close ys = Some r \<Longrightarrow> length r < length ys" for ys r
    by (induction ys) (auto split: if_splits)
  show ?thesis
    by (relation "measure length") (auto dest: shorter)
qed

text \<open>\<open>s.replace(old, "")\<close> for a non-empty \<open>old\<close>: every occurrence, left to right.\<close>

fun py_remove :: "string \<Rightarrow> string \<Rightarrow> string" where
  "py_remove old [] = []"
| "py_remove old (c # cs) =
     (if old \<noteq> [] \<and> prefix old (c # cs) then py_remove old (drop (length old) (c # cs))
      else c # py_remove old cs)"

definition is_mentioned :: "in_note \<Rightarrow> bool" where
  "is_mentioned n =
     (case in_tag n of
        None \<Rightarrow> False
      | Some tags \<Rightarrow>
          list_ex (\<lambda>t. case t of MentionTag h \<Rightarrow> h = Some actor_id | OtherTag \<Rightarrow> False) tags)"

definition command_text :: "string \<Rightarrow> string" where
  "command_text content0 =
     py_strip (py_remove (''@'' @ actor_preferredUsername) (re_sub_tags content0))"

definition check_mark :: string where
  "check_mark = [CHR 0xE2, CHR 0x9C, CHR 0x85]"

definition thinking_face :: string where
  "thinking_face = [CHR 0xF0, CHR 0x9F, CHR 0xA4, CHR 0x94]"

definition ack_content :: "string \<Rightarrow> string" where
  "ack_content time_str = ''<p>'' @ check_mark @ '' OK! I'll remind you in '' @ time_str @ ''.</p>''"

definition usage_help :: string where
  "usage_help =
     ''<p>'' @ thinking_face @
     '' Sorry, I didn't understand. Use format: <code>@reminder [time] [message]</code>.</p>'' @
     ''<p>Example: <code>@reminder 10m Check the oven</code></p>''"

text \<open>
  \<open>on_create_activity\<close>. \<open>Inl\<close> is an exception that leaves the handler (the peer gets a
  server error), \<open>Inr\<close> the response returned. The reply \<open>Note\<close> evaluates its \<open>id\<close> (one
  \<open>uuid4\<close> call) before it reads \<open>sender_actor.id\<close>.
\<close>

definition on_create_activity :: "env \<Rightarrow> private_key \<Rightarrow> state \<Rightarrow> in_activity \<Rightarrow> (py_error + response) \<times> state" where
  "on_create_activity e pk st activity =
     (case activity of
        CreateIn sender (NoteObject note) \<Rightarrow>
          if \<not> is_mentioned note then (Inr (StatusResponse 202), st)
          else
            (case in_content note of
               None \<Rightarrow> (Inl TypeError, st)
             | Some content0 \<Rightarrow>
                 (case parse_reminder (command_text content0) of
                    Inl err \<Rightarrow> (Inl err, st)
                  | Inr parsed \<Rightarrow>
                      (case fetch e sender of
                         FetchRaises \<Rightarrow> (Inl TransportError, st)
                       | fetched \<Rightarrow>
                           (let sender_actor = (case fetched of Fetched a \<Rightarrow> Some a | _ \<Rightarrow> None);
                                scheduled =
                                  (case (parsed, sender_actor) of
                                     (Some (delay, message, time_str), Some a) \<Rightarrow>
                                       if timedelta_truthy delay \<and> message \<noteq> []
                                       then Some (\<lparr>t_delay = delay, t_message = message,
                                                   t_target = a, t_note = note\<rparr>, time_str)
                                       else None
                                   | _ \<Rightarrow> None);
                                st1 = (case scheduled of
                                         Some (task, time_str) \<Rightarrow> st\<lparr>tasks := tasks st @ [task]\<rparr>
                                       | None \<Rightarrow> st);
                                reply_content =
                                  (case scheduled of
                                     Some (task, time_str) \<Rightarrow> ack_content time_str
                                   | None \<Rightarrow> usage_help);
                                st2 = st1\<lparr>uuid_calls := uuid_calls st1 + 1\<rparr>
                            in case sender_actor of
                                 None \<Rightarrow> (Inl AttributeError, st2)
                               | Some a \<Rightarrow>
                                   (let reply_note =
                                          \<lparr>note_id = notes_uri (uuid4 e (uuid_calls st1)),
                                           attributedTo = actor_id,
                                           inReplyTo = in_id note,
                                           content = reply_content,
                                           note_to = [ra_id a],
                                           note_tag =
                                             [\<lparr>href = ra_id a,
                                               name = ''@'' @ py_format (ra_preferredUsername a)\<rparr>]\<rparr>;
                                        reply_create =
                                          \<lparr>create_id = creates_uri (uuid4 e (uuid_calls st2)),
                                           create_actor = actor_id,
                                           create_object = reply_note,
                                           create_to = [ra_id a]\<rparr>;
                                        st3 = st2\<lparr>uuid_calls := uuid_calls st2 + 1\<rparr>;
                                        st4 = st3\<lparr>ACTIVITY_STORE :=
                                                (ACTIVITY_STORE st3)(note_id reply_note \<mapsto>
                                                   NoteActivity reply_note)\<rparr>;
                                        st5 = st4\<lparr>ACTIVITY_STORE :=
                                                (ACTIVITY_STORE st4)(create_id reply_create \<mapsto>
                                                   CreateActivity reply_create)\<rparr>;
                                        keys = get_keys_for_actor pk (''https://'' @ HOST @ ''/actor'')
                                    in case ctx_send e keys a (CreateActivity reply_create) st5 of
                                         (Inl err, st6) \<Rightarrow> (Inl err, st6)
                                       | (Inr _, st6) \<Rightarrow> (Inr (StatusResponse 202), st6))))))
      | _ \<Rightarrow> (Inr (StatusResponse 202), st))"

section \<open>Runs of the process\<close>

text \<open>
  The states the process can be in: it starts with empty dictionaries; each step is one
  inbox activity handled, one pending reminder task firing, or one fetch request served,
  under whatever the environment answers.
\<close>

inductive reachable :: "private_key \<Rightarrow> state \<Rightarrow> bool" for pk :: private_key where
  reach_init: "reachable pk initial_state"
| reach_create:
    "reachable pk st \<Longrightarrow> on_create_activity e pk st activity = (r, st') \<Longrightarrow> reachable pk st'"
| reach_follow:
    "reachable pk st \<Longrightarrow> on_follow_activity e pk st activity = (r, st') \<Longrightarrow> reachable pk st'"
| reach_fire:
    "reachable pk st \<Longrightarrow> i < length (tasks st) \<Longrightarrow>
     send_reminder e pk (st\<lparr>tasks := take i (tasks st) @ drop (Suc i) (tasks st)\<rparr>) (tasks st ! i) = (r', st')
     \<Longrightarrow> reachable pk st'"
| reach_get_note:
    "reachable pk st \<Longrightarrow> get_note_endpoint st u now_check now_insert = (resp, st') \<Longrightarrow> reachable pk st'"
| reach_get_create:
    "reachable pk st \<Longrightarrow> get_create_endpoint st u now_check now_insert = (resp, st') \<Longrightarrow> reachable pk st'"

section \<open>Auxiliary notions for the statements\<close>

text \<open>A cache entry for \<open>uri\<close> that is younger than the time to live at instant \<open>now\<close>.\<close>

definition cache_fresh :: "state \<Rightarrow> string \<Rightarrow> int \<Rightarrow> bool" where
  "cache_fresh st uri now =
     (case CACHE st uri of None \<Rightarrow> False | Some ce \<Rightarrow> now - ce_timestamp ce < CACHE_TTL)"

text \<open>The main key of the bot, the only signing key the handlers ever pass to \<open>ctx.send\<close>.\<close>

definition main_key :: "private_key \<Rightarrow> actor_key" where
  "main_key pk = \<lparr>key_id = actor_publicKey_id, private_key = pk\<rparr>"

text \<open>
  Every entry of the store and of the cache sits under the \<open>id\<close> of the activity it holds.
\<close>

definition keyed :: "state \<Rightarrow> bool" where
  "keyed st \<longleftrightarrow>
     (\<forall>uri a. ACTIVITY_STORE st uri = Some a \<longrightarrow> activity_id a = uri) \<and>
     (\<forall>uri ce. CACHE st uri = Some ce \<longrightarrow> activity_id (ce_activity ce) = uri)"

section \<open>Example inputs\<close>

text \<open>A remote actor, a note of hers that mentions the bot, and simple environments.\<close>

definition alice :: remote_actor where
  "alice = \<lparr>ra_id = ''https://example.org/users/alice'',
            ra_preferredUsername = Some ''alice'',
            ra_url = Some ''https://example.org/@alice''\<rparr>"

definition mention_note :: "string \<Rightarrow> in_note" where
  "mention_note text =
     \<lparr>in_id = Some ''https://example.org/notes/1'',
      in_content = Some text,
      in_tag = Some [MentionTag (Some actor_id)]\<rparr>"

definition env_with :: "fetch_result \<Rightarrow> env" where
  "env_with answer =
     \<lparr>fetch = (\<lambda>_. answer), send_returns = True, uuid4 = (\<lambda>k. of_nat k),
      format_actor = (\<lambda>a. ''Person(id='' @ ra_id a @ '')'')\<rparr>"

definition alice_task :: reminder_task where
  "alice_task =
     \<lparr>t_delay = Timedelta 1000000, t_message = ''ping'', t_target = alice,
      t_note = mention_note ''@reminder 1s ping''\<rparr>"

definition hello_activity :: in_activity where
  "hello_activity =
     CreateIn (ActorUri (ra_id alice)) (NoteObject (mention_note ''<p>@reminder hello</p>''))"

section \<open>Properties of the parser\<close>




lemma digit_not_space: "is_digit c \<Longrightarrow> \<not> is_space c"
  by (auto simp: is_digit_def is_space_def)

lemma unit_matches_cases:
  "unit_matches u \<longleftrightarrow> u = CHR ''s'' \<or> u = CHR ''m'' \<or> u = CHR ''h'' \<or> u = CHR ''d'' \<or>
     u = CHR ''S'' \<or> u = CHR ''M'' \<or> u = CHR ''H'' \<or> u = CHR ''D''"
  by (auto simp: unit_matches_def)

lemma unit_not_space: "unit_matches u \<Longrightarrow> \<not> is_space u"
  by (auto simp: unit_matches_cases is_space_def)

lemma unit_not_digit: "unit_matches u \<Longrightarrow> \<not> is_digit u"
  by (auto simp: unit_matches_cases is_digit_def)

lemma py_lower_unit:
  "py_lower_char (CHR ''s'') = CHR ''s''" "py_lower_char (CHR ''S'') = CHR ''s''"
  "py_lower_char (CHR ''m'') = CHR ''m''" "py_lower_char (CHR ''M'') = CHR ''m''"
  "py_lower_char (CHR ''h'') = CHR ''h''" "py_lower_char (CHR ''H'') = CHR ''h''"
  "py_lower_char (CHR ''d'') = CHR ''d''" "py_lower_char (CHR ''D'') = CHR ''d''"
  by code_simp+

lemma unit_lower:
  "unit_matches u \<Longrightarrow> py_lower_char u \<in> {CHR ''s'', CHR ''m'', CHR ''h'', CHR ''d''}"
  unfolding unit_matches_cases by (elim disjE) (simp_all add: py_lower_unit)

lemma pattern_search_grammar:
  assumes ws1: "\<forall>c\<in>set ws1. is_space c"
    and ds: "ds \<noteq> []" "\<forall>c\<in>set ds. is_digit c"
    and ws2: "\<forall>c\<in>set ws2. is_space c"
    and u: "unit_matches u"
  shows "pattern_search (ws1 @ ds @ ws2 @ [u] @ rem) =
           Some (ds, u, takeWhile (\<lambda>c. c \<noteq> newline) (dropWhile is_space rem))"
proof -
  obtain d ds' where dsc: "ds = d # ds'" using ds(1) by (cases ds) auto
  have d: "\<not> is_space d" using ds(2) dsc digit_not_space by auto
  have s1: "dropWhile is_space (ws1 @ ds @ ws2 @ [u] @ rem) = ds @ ws2 @ [u] @ rem"
    using ws1 d by (simp add: dropWhile_append2 dsc)
  have nd: "takeWhile is_digit (ws2 @ [u] @ rem) = []" "dropWhile is_digit (ws2 @ [u] @ rem) = ws2 @ [u] @ rem"
    using ws2 u unit_not_digit digit_not_space by (cases ws2; auto)+
  have tk: "takeWhile is_digit (ds @ ws2 @ [u] @ rem) = ds"
    using ds(2) nd(1) by (simp add: takeWhile_append2)
  have dr: "dropWhile is_digit (ds @ ws2 @ [u] @ rem) = ws2 @ [u] @ rem"
    using ds(2) nd(2) by (simp add: dropWhile_append2)
  have s2: "dropWhile is_space (ws2 @ [u] @ rem) = u # rem"
    using ws2 u unit_not_space by (simp add: dropWhile_append2)
  show ?thesis
    unfolding pattern_search_def Let_def s1 tk dr s2 using ds(1) u by simp
qed

lemma pattern_search_Some:
  assumes "pattern_search text = Some (valu, u, message)"
  shows "\<exists>ws1 ws2 rem. text = ws1 @ valu @ ws2 @ [u] @ rem \<and> (\<forall>c\<in>set ws1. is_space c) \<and>
           valu \<noteq> [] \<and> (\<forall>c\<in>set valu. is_digit c) \<and> (\<forall>c\<in>set ws2. is_space c) \<and> unit_matches u"
proof -
  define s1 where "s1 = dropWhile is_space text"
  define s2 where "s2 = dropWhile is_space (dropWhile is_digit s1)"
  from assms have v: "valu = takeWhile is_digit s1" "valu \<noteq> []"
    by (auto simp: pattern_search_def Let_def s1_def split: if_splits list.splits)
  from assms obtain s3 where s3: "s2 = u # s3" "unit_matches u"
    by (auto simp: pattern_search_def Let_def s1_def s2_def split: if_splits list.splits)
  have "text = takeWhile is_space text @ s1" by (simp add: s1_def)
  moreover have "s1 = valu @ dropWhile is_digit s1" by (simp add: v)
  moreover have "dropWhile is_digit s1 = takeWhile is_space (dropWhile is_digit s1) @ s2"
    by (simp add: s2_def)
  ultimately have "text = takeWhile is_space text @ valu @ takeWhile is_space (dropWhile is_digit s1) @ [u] @ s3"
    using s3 by simp
  moreover have "\<forall>c\<in>set (takeWhile is_space text). is_space c" by (auto dest: set_takeWhileD)
  moreover have "\<forall>c\<in>set valu. is_digit c" unfolding v by (auto dest: set_takeWhileD)
  moreover have "\<forall>c\<in>set (takeWhile is_space (dropWhile is_digit s1)). is_space c" by (auto dest: set_takeWhileD)
  ultimately show ?thesis using v(2) s3(2) by blast
qed

lemma digits_to_int_nonneg_aux:
  "\<forall>c\<in>set ds. is_digit c \<Longrightarrow> 0 \<le> a \<Longrightarrow> 0 \<le> foldl (\<lambda>acc c. 10 * acc + digit_value c) a ds"
proof (induction ds arbitrary: a)
  case Nil then show ?case by simp
next
  case (Cons c ds)
  have "0 \<le> digit_value c" using Cons.prems(1) by (auto simp: is_digit_def digit_value_def)
  then show ?case using Cons by simp
qed

lemma digits_to_int_nonneg: "\<forall>c\<in>set ds. is_digit c \<Longrightarrow> 0 \<le> digits_to_int ds"
  unfolding digits_to_int_def by (rule digits_to_int_nonneg_aux) simp_all

lemma int_div_le_iff:
  assumes p: "0 < (p::int)"
  shows "a div p \<le> m \<longleftrightarrow> a < (m + 1) * p"
proof -
  define q where "q = a div p"
  define r where "r = a mod p"
  have a: "a = q * p + r" by (simp add: q_def r_def)
  have r: "0 \<le> r" "r < p" using p by (simp_all add: r_def)
  have "q \<le> m \<longleftrightarrow> a < (m + 1) * p"
  proof
    assume "q \<le> m"
    then have "q * p \<le> m * p" using p by (simp add: mult_right_mono)
    then have "a < m * p + p" using a r by linarith
    then show "a < (m + 1) * p" by (simp add: distrib_right)
  next
    assume less: "a < (m + 1) * p"
    show "q \<le> m"
    proof (rule ccontr)
      assume "\<not> q \<le> m"
      then have "m + 1 \<le> q" by simp
      then have "(m + 1) * p \<le> q * p" using p by (simp add: mult_right_mono)
      then show False using less a r by linarith
    qed
  qed
  then show ?thesis by (simp add: q_def)
qed

lemma new_timedelta_nonneg:
  assumes a: "0 \<le> us"
  shows "new_timedelta us =
     (if us < (MAX_DELTA_DAYS + 1) * us_per_day then Inr (Timedelta us) else Inl OverflowError)"
proof -
  have p: "0 < us_per_day" by (simp add: us_per_day_def us_per_second_def)
  have "0 \<le> us div us_per_day" using a p by (simp add: pos_imp_zdiv_nonneg_iff)
  moreover have "us div us_per_day \<le> MAX_DELTA_DAYS \<longleftrightarrow> us < (MAX_DELTA_DAYS + 1) * us_per_day"
    using p by (rule int_div_le_iff)
  ultimately show ?thesis by (auto simp: new_timedelta_def)
qed

lemma strip_default: "py_strip default_message = default_message" "default_message \<noteq> []"
  by code_simp+


lemma parse_reminder_grammar:
  assumes ws1: "\<forall>c\<in>set ws1. is_space c"
    and ds: "ds \<noteq> []" "\<forall>c\<in>set ds. is_digit c"
    and ws2: "\<forall>c\<in>set ws2. is_space c"
    and u: "unit_matches u"
  shows "parse_reminder (ws1 @ ds @ ws2 @ [u] @ rem) =
           (if length ds > int_max_str_digits then Inl ValueError
            else if digits_to_int ds * unit_microseconds u < (MAX_DELTA_DAYS + 1) * us_per_day
            then Inr (Some (Timedelta (digits_to_int ds * unit_microseconds u),
                            (if first_line_trimmed rem = [] then default_message
                             else first_line_trimmed rem),
                            py_str_int (digits_to_int ds) @ [py_lower_char u]))
            else Inl OverflowError)"
proof -
  let ?v = "digits_to_int ds"
  have v: "0 \<le> ?v" using ds(2) by (rule digits_to_int_nonneg)
  have ps: "pattern_search (ws1 @ ds @ ws2 @ [u] @ rem) =
              Some (ds, u, takeWhile (\<lambda>c. c \<noteq> newline) (dropWhile is_space rem))"
    using assms by (rule pattern_search_grammar)
  have um: "0 \<le> ?v * unit_microseconds u"
    using v by (simp add: unit_microseconds_def us_per_day_def us_per_second_def)
  have delta: "(if py_lower_char u = CHR ''s'' then map_sum id Some (timedelta_seconds ?v)
       else if py_lower_char u = CHR ''m'' then map_sum id Some (timedelta_minutes ?v)
       else if py_lower_char u = CHR ''h'' then map_sum id Some (timedelta_hours ?v)
       else if py_lower_char u = CHR ''d'' then map_sum id Some (timedelta_days ?v)
       else Inr None) = map_sum id Some (new_timedelta (?v * unit_microseconds u))"
    using unit_lower [OF u]
    by (auto simp: unit_microseconds_def timedelta_seconds_def timedelta_minutes_def
        timedelta_hours_def timedelta_days_def mult.assoc)
  show ?thesis
    unfolding parse_reminder_def ps py_int_def
    by (simp add: Let_def delta new_timedelta_nonneg [OF um] first_line_trimmed_def strip_default)
qed



text \<open>
  Claim C3. \<open>parse_reminder\<close> on the four example inputs: \<open>5m Check the oven\<close> gives a
  delay of five minutes and the message \<open>Check the oven\<close>; \<open>10M\<close> gives ten minutes and
  the default message; \<open>hello\<close> and \<open>3x do it\<close> give no match, \<open>x\<close> not being a unit.
\<close>

theorem parse_reminder_examples:
  "timedelta_minutes 5 = Inr (Timedelta 300000000) \<and>
   parse_reminder ''5m Check the oven'' = Inr (Some (Timedelta 300000000, ''Check the oven'', ''5m'')) \<and>
   timedelta_minutes 10 = Inr (Timedelta 600000000) \<and>
   parse_reminder ''10M'' = Inr (Some (Timedelta 600000000, default_message, ''10m'')) \<and>
   parse_reminder ''hello'' = Inr None \<and>
   parse_reminder ''3x do it'' = Inr None \<and>
   \<not> unit_matches (CHR ''x'')"
  by code_simp

text \<open>
  Claim C6, as stated, fails: ten digits followed by \<open>d\<close> do not parse, because the
  \<open>timedelta\<close> constructor raises \<open>OverflowError\<close> for a thousand million days.
\<close>

theorem unbounded_magnitude_counterexample:
  "list_all is_digit ''1000000000'' \<and> unit_matches (CHR ''d'') \<and>
   parse_reminder (''1000000000'' @ [CHR ''d'']) = Inl OverflowError"
  by code_simp

text \<open>
  Claim C6, amended. For one or more digits followed by a unit letter, \<open>parse_reminder\<close>
  returns the delay of that many units, with the default message, whenever the digit
  string has at most 4300 digits and the delay stays below one thousand million days;
  it raises \<open>ValueError\<close> for a longer digit string and \<open>OverflowError\<close> for a longer delay.
  The parser itself sets no bound.
\<close>

theorem parse_reminder_digits_unit:
  assumes "ds \<noteq> []" and "\<forall>c\<in>set ds. is_digit c" and "unit_matches u"
  shows "parse_reminder (ds @ [u]) =
           (if length ds > int_max_str_digits then Inl ValueError
            else if digits_to_int ds * unit_microseconds u < (MAX_DELTA_DAYS + 1) * us_per_day
            then Inr (Some (Timedelta (digits_to_int ds * unit_microseconds u), default_message,
                            py_str_int (digits_to_int ds) @ [py_lower_char u]))
            else Inl OverflowError)"
proof -
  have e: "first_line_trimmed [] = []" by (simp add: first_line_trimmed_def py_strip_def)
  show ?thesis
    using parse_reminder_grammar [of "[]" ds "[]" u "[]"] assms by (simp add: e)
qed

theorem parse_reminder_digits_unit_witness:
  "''999999999'' \<noteq> [] \<and> list_all is_digit ''999999999'' \<and> unit_matches (CHR ''D'') \<and>
   parse_reminder (''999999999'' @ [CHR ''D'']) =
     Inr (Some (Timedelta 86399999913600000000, default_message, ''999999999d''))"
proof -
  have h1: "''999999999'' \<noteq> []" by simp
  have h2: "\<forall>c\<in>set ''999999999''. is_digit c" by code_simp
  have h3: "unit_matches (CHR ''D'')" by code_simp
  have v: "digits_to_int ''999999999'' = 999999999" by code_simp
  have m: "unit_microseconds (CHR ''D'') = 86400000000" by code_simp
  have s: "py_str_int 999999999 = ''999999999''" by code_simp
  have l: "py_lower_char (CHR ''D'') = CHR ''d''" by code_simp
  have h2': "list_all is_digit ''999999999''" by code_simp
  show ?thesis
    using parse_reminder_digits_unit [OF h1 h2 h3] h1 h2' h3
    by (simp add: v m s l int_max_str_digits_def MAX_DELTA_DAYS_def us_per_day_def us_per_second_def)
qed

lemma parse_reminder_Some_grammar:
  assumes "parse_reminder text = Inr (Some r)"
  shows "\<exists>ws1 ds ws2 u rem. text = ws1 @ ds @ ws2 @ [u] @ rem \<and> (\<forall>c\<in>set ws1. is_space c) \<and>
           ds \<noteq> [] \<and> (\<forall>c\<in>set ds. is_digit c) \<and> (\<forall>c\<in>set ws2. is_space c) \<and> unit_matches u"
proof -
  from assms obtain valu u message where "pattern_search text = Some (valu, u, message)"
    by (auto simp: parse_reminder_def split: option.splits)
  from pattern_search_Some [OF this] show ?thesis by blast
qed

text \<open>
  Claim C7, as stated, fails on multi-line text: the message of \<open>5m a\<close>, line feed, \<open>b\<close>
  is \<open>a\<close>, which is neither the text after the unit nor that text trimmed.
\<close>

theorem message_is_remainder_counterexample:
  "parse_reminder (''5m a'' @ [newline] @ ''b'') = Inr (Some (Timedelta 300000000, ''a'', ''5m'')) \<and>
   remainder_after_unit (''5m a'' @ [newline] @ ''b'') = '' a'' @ [newline] @ ''b'' \<and>
   py_strip ('' a'' @ [newline] @ ''b'') = ''a'' @ [newline] @ ''b'' \<and>
   ''a'' \<noteq> '' a'' @ [newline] @ ''b'' \<and> ''a'' \<noteq> ''a'' @ [newline] @ ''b''"
  by code_simp

text \<open>
  Claim C7, amended. Every successfully parsed text splits into whitespace, digits,
  whitespace, a unit letter and a remainder, and the returned message is the first line
  of that remainder after its leading whitespace (line feeds included) is skipped,
  trimmed; when that is empty the message is the default string.
\<close>

theorem parse_reminder_message:
  assumes ok: "parse_reminder text = Inr (Some (delay, message, ts))"
  shows "(\<exists>ws1 ds ws2 u rem. text = ws1 @ ds @ ws2 @ [u] @ rem \<and> (\<forall>c\<in>set ws1. is_space c) \<and>
            ds \<noteq> [] \<and> (\<forall>c\<in>set ds. is_digit c) \<and> (\<forall>c\<in>set ws2. is_space c) \<and> unit_matches u) \<and>
         (\<forall>ws1 ds ws2 u rem.
            text = ws1 @ ds @ ws2 @ [u] @ rem \<and> (\<forall>c\<in>set ws1. is_space c) \<and>
            ds \<noteq> [] \<and> (\<forall>c\<in>set ds. is_digit c) \<and> (\<forall>c\<in>set ws2. is_space c) \<and> unit_matches u
            \<longrightarrow> message = (if first_line_trimmed rem = [] then default_message
                           else first_line_trimmed rem))"
proof (intro conjI allI impI)
  show "\<exists>ws1 ds ws2 u rem. text = ws1 @ ds @ ws2 @ [u] @ rem \<and> (\<forall>c\<in>set ws1. is_space c) \<and>
            ds \<noteq> [] \<and> (\<forall>c\<in>set ds. is_digit c) \<and> (\<forall>c\<in>set ws2. is_space c) \<and> unit_matches u"
    using ok by (rule parse_reminder_Some_grammar)
next
  fix ws1 ds ws2 u rem
  assume g: "text = ws1 @ ds @ ws2 @ [u] @ rem \<and> (\<forall>c\<in>set ws1. is_space c) \<and>
            ds \<noteq> [] \<and> (\<forall>c\<in>set ds. is_digit c) \<and> (\<forall>c\<in>set ws2. is_space c) \<and> unit_matches u"
  then have "parse_reminder text =
           (if length ds > int_max_str_digits then Inl ValueError
            else if digits_to_int ds * unit_microseconds u < (MAX_DELTA_DAYS + 1) * us_per_day
            then Inr (Some (Timedelta (digits_to_int ds * unit_microseconds u),
                            (if first_line_trimmed rem = [] then default_message
                             else first_line_trimmed rem),
                            py_str_int (digits_to_int ds) @ [py_lower_char u]))
            else Inl OverflowError)"
    using parse_reminder_grammar [of ws1 ds ws2 u rem] by simp
  with ok show "message = (if first_line_trimmed rem = [] then default_message
                           else first_line_trimmed rem)"
    by (simp split: if_splits)
qed

theorem parse_reminder_message_witness:
  "parse_reminder (''7 h'' @ [newline] @ '' tea  '' @ [newline] @ ''later'') =
     Inr (Some (Timedelta 25200000000, ''tea'', ''7h'')) \<and>
   first_line_trimmed ([newline] @ '' tea  '' @ [newline] @ ''later'') = ''tea''"
proof -
  let ?rem = "[newline] @ '' tea  '' @ [newline] @ ''later''"
  have ok: "parse_reminder (''7 h'' @ ?rem) = Inr (Some (Timedelta 25200000000, ''tea'', ''7h''))"
    by code_simp
  have g: "''7 h'' @ ?rem = [] @ ''7'' @ '' '' @ [CHR ''h''] @ ?rem \<and> (\<forall>c\<in>set []. is_space c) \<and>
      ''7'' \<noteq> [] \<and> (\<forall>c\<in>set ''7''. is_digit c) \<and> (\<forall>c\<in>set '' ''. is_space c) \<and> unit_matches (CHR ''h'')"
    by code_simp
  have "''tea'' = (if first_line_trimmed ?rem = [] then default_message else first_line_trimmed ?rem)"
    using parse_reminder_message [OF ok, THEN conjunct2, rule_format, OF g] .
  moreover have "first_line_trimmed ?rem \<noteq> []" by code_simp
  ultimately show ?thesis using ok by simp
qed

section \<open>Discovery and the fetch endpoints\<close>


text \<open>
  Claim C9, as stated, fails: a query for the resource \<open>https://apsig.amase.cc/actor\<close>,
  which is a URL and not the configured handle, is answered with status 200.
\<close>

theorem webfinger_handle_only_counterexample:
  "status_code (webfinger_endpoint
      \<lparr>wf_username = None, wf_host = None, wf_url = Some ''https://apsig.amase.cc/actor''\<rparr>) = 200 \<and>
   wf_username \<lparr>wf_username = None, wf_host = None, wf_url = Some ''https://apsig.amase.cc/actor''\<rparr>
     \<noteq> Some USER_ID"
  by (simp add: webfinger_endpoint_def HOST_def)

text \<open>
  Claim C9, amended. The discovery endpoint answers 200 with one \<open>self\<close> link to the actor
  in exactly two cases: the resource has no URL and its user name and host are the
  configured pair, or the resource is the URL of the actor. Every other query gets 404.
\<close>

theorem webfinger_endpoint_cases:
  "webfinger_endpoint acct =
     (if (wf_url acct \<in> {None, Some []} \<and> wf_username acct = Some USER_ID \<and> wf_host acct = Some HOST)
         \<or> wf_url acct = Some actor_id
      then WebfingerResponse acct
             [\<lparr>wl_rel = ''self'', wl_type = ''application/activity+json'', wl_href = actor_id\<rparr>]
      else NotFoundJSON) \<and>
   status_code (webfinger_endpoint acct) =
     (if (wf_url acct \<in> {None, Some []} \<and> wf_username acct = Some USER_ID \<and> wf_host acct = Some HOST)
         \<or> wf_url acct = Some actor_id
      then 200 else 404)"
  by (auto simp: webfinger_endpoint_def actor_id_def Let_def HOST_def)

lemma get_note_endpoint_cases:
  "get_note_endpoint st u t1 t2 =
     (case CACHE st (notes_uri u) of
        Some ce \<Rightarrow>
          if t1 - ce_timestamp ce < CACHE_TTL then (ActivityResponse (ce_activity ce), st)
          else (case ACTIVITY_STORE st (notes_uri u) of
                  Some a \<Rightarrow> (ActivityResponse a,
                             st\<lparr>store_reads := store_reads st + 1,
                                CACHE := (CACHE st)(notes_uri u \<mapsto> \<lparr>ce_activity = a, ce_timestamp = t2\<rparr>)\<rparr>)
                | None \<Rightarrow> (StatusResponse 404, st\<lparr>store_reads := store_reads st + 1\<rparr>))
      | None \<Rightarrow>
          (case ACTIVITY_STORE st (notes_uri u) of
             Some a \<Rightarrow> (ActivityResponse a,
                        st\<lparr>store_reads := store_reads st + 1,
                           CACHE := (CACHE st)(notes_uri u \<mapsto> \<lparr>ce_activity = a, ce_timestamp = t2\<rparr>)\<rparr>)
           | None \<Rightarrow> (StatusResponse 404, st\<lparr>store_reads := store_reads st + 1\<rparr>)))"
  by (simp add: get_note_endpoint_def notes_uri_def Let_def split: option.splits)


lemma get_create_endpoint_cases:
  "get_create_endpoint st u t1 t2 =
     (case CACHE st (creates_uri u) of
        Some ce \<Rightarrow>
          if t1 - ce_timestamp ce < CACHE_TTL then (ActivityResponse (ce_activity ce), st)
          else (case ACTIVITY_STORE st (creates_uri u) of
                  Some a \<Rightarrow> (ActivityResponse a,
                             st\<lparr>store_reads := store_reads st + 1,
                                CACHE := (CACHE st)(creates_uri u \<mapsto> \<lparr>ce_activity = a, ce_timestamp = t2\<rparr>)\<rparr>)
                | None \<Rightarrow> (StatusResponse 404, st\<lparr>store_reads := store_reads st + 1\<rparr>))
      | None \<Rightarrow>
          (case ACTIVITY_STORE st (creates_uri u) of
             Some a \<Rightarrow> (ActivityResponse a,
                        st\<lparr>store_reads := store_reads st + 1,
                           CACHE := (CACHE st)(creates_uri u \<mapsto> \<lparr>ce_activity = a, ce_timestamp = t2\<rparr>)\<rparr>)
           | None \<Rightarrow> (StatusResponse 404, st\<lparr>store_reads := store_reads st + 1\<rparr>)))"
  by (simp add: get_create_endpoint_def creates_uri_def Let_def split: option.splits)

lemma endpoint_cached:
  assumes "endpoint = get_note_endpoint \<and> mk = notes_uri \<or>
           endpoint = get_create_endpoint \<and> mk = creates_uri"
    and "cache_fresh st (mk u) t1"
  shows "\<exists>ce. CACHE st (mk u) = Some ce \<and>
              endpoint st u t1 t2 = (ActivityResponse (ce_activity ce), st)"
  using assms
  by (auto simp: cache_fresh_def get_note_endpoint_cases get_create_endpoint_cases
           split: option.splits)

lemma endpoint_store_hit:
  assumes "endpoint = get_note_endpoint \<and> mk = notes_uri \<or>
           endpoint = get_create_endpoint \<and> mk = creates_uri"
    and "\<not> cache_fresh st (mk u) t1" and "ACTIVITY_STORE st (mk u) = Some a"
  shows "endpoint st u t1 t2 =
           (ActivityResponse a,
            st\<lparr>store_reads := store_reads st + 1,
               CACHE := (CACHE st)(mk u \<mapsto> \<lparr>ce_activity = a, ce_timestamp = t2\<rparr>)\<rparr>)"
  using assms
  by (auto simp: cache_fresh_def get_note_endpoint_cases get_create_endpoint_cases
           split: option.splits)

lemma endpoint_store_miss:
  assumes "endpoint = get_note_endpoint \<and> mk = notes_uri \<or>
           endpoint = get_create_endpoint \<and> mk = creates_uri"
    and "\<not> cache_fresh st (mk u) t1" and "ACTIVITY_STORE st (mk u) = None"
  shows "endpoint st u t1 t2 = (StatusResponse 404, st\<lparr>store_reads := store_reads st + 1\<rparr>)"
  using assms
  by (auto simp: cache_fresh_def get_note_endpoint_cases get_create_endpoint_cases
           split: option.splits)

text \<open>
  Claim C2. For both fetch endpoints and every UUID: a cache entry younger than the time
  to live is returned and the state, store counter included, stays as it was; otherwise
  the store is read once, a hit is cached with the new timestamp and returned, a miss
  gives 404 and leaves the cache alone. Hence two fetches of a stored URI, the second
  within the time to live of the entry the first one made, return the same activity and
  read the store once; when the second comes later it reads the store again and returns
  the same activity.
\<close>

theorem read_through_cache:
  assumes ep: "endpoint = get_note_endpoint \<and> mk = notes_uri \<or>
               endpoint = get_create_endpoint \<and> mk = creates_uri"
  shows "(cache_fresh st (mk u) t1 \<longrightarrow>
            (\<exists>ce. CACHE st (mk u) = Some ce \<and>
                  endpoint st u t1 t2 = (ActivityResponse (ce_activity ce), st))) \<and>
         (\<not> cache_fresh st (mk u) t1 \<and> ACTIVITY_STORE st (mk u) = Some a \<longrightarrow>
            endpoint st u t1 t2 =
              (ActivityResponse a,
               st\<lparr>store_reads := store_reads st + 1,
                  CACHE := (CACHE st)(mk u \<mapsto> \<lparr>ce_activity = a, ce_timestamp = t2\<rparr>)\<rparr>)) \<and>
         (\<not> cache_fresh st (mk u) t1 \<and> ACTIVITY_STORE st (mk u) = None \<longrightarrow>
            endpoint st u t1 t2 = (StatusResponse 404, st\<lparr>store_reads := store_reads st + 1\<rparr>)) \<and>
         (\<not> cache_fresh st (mk u) t1 \<and> ACTIVITY_STORE st (mk u) = Some a \<and> t3 - t2 < CACHE_TTL \<longrightarrow>
            (case endpoint st u t1 t2 of (r1, st1) \<Rightarrow>
               case endpoint st1 u t3 t4 of (r2, st2) \<Rightarrow>
                 r1 = ActivityResponse a \<and> r2 = ActivityResponse a \<and>
                 store_reads st2 = store_reads st + 1)) \<and>
         (\<not> cache_fresh st (mk u) t1 \<and> ACTIVITY_STORE st (mk u) = Some a \<and> \<not> t3 - t2 < CACHE_TTL \<longrightarrow>
            (case endpoint st u t1 t2 of (r1, st1) \<Rightarrow>
               case endpoint st1 u t3 t4 of (r2, st2) \<Rightarrow>
                 r1 = ActivityResponse a \<and> r2 = ActivityResponse a \<and>
                 store_reads st2 = store_reads st + 2 \<and>
                 ACTIVITY_STORE st2 = ACTIVITY_STORE st))"
proof (intro conjI impI)
  assume "cache_fresh st (mk u) t1"
  with ep show "\<exists>ce. CACHE st (mk u) = Some ce \<and>
                  endpoint st u t1 t2 = (ActivityResponse (ce_activity ce), st)"
    by (rule endpoint_cached)
next
  assume "\<not> cache_fresh st (mk u) t1 \<and> ACTIVITY_STORE st (mk u) = Some a"
  with ep show "endpoint st u t1 t2 =
              (ActivityResponse a,
               st\<lparr>store_reads := store_reads st + 1,
                  CACHE := (CACHE st)(mk u \<mapsto> \<lparr>ce_activity = a, ce_timestamp = t2\<rparr>)\<rparr>)"
    by (simp add: endpoint_store_hit)
next
  assume "\<not> cache_fresh st (mk u) t1 \<and> ACTIVITY_STORE st (mk u) = None"
  with ep show "endpoint st u t1 t2 = (StatusResponse 404, st\<lparr>store_reads := store_reads st + 1\<rparr>)"
    by (simp add: endpoint_store_miss)
next
  let ?st1 = "st\<lparr>store_reads := store_reads st + 1,
                  CACHE := (CACHE st)(mk u \<mapsto> \<lparr>ce_activity = a, ce_timestamp = t2\<rparr>)\<rparr>"
  assume h: "\<not> cache_fresh st (mk u) t1 \<and> ACTIVITY_STORE st (mk u) = Some a \<and> t3 - t2 < CACHE_TTL"
  with ep have first: "endpoint st u t1 t2 = (ActivityResponse a, ?st1)"
    by (simp add: endpoint_store_hit)
  have "cache_fresh ?st1 (mk u) t3" using h by (simp add: cache_fresh_def)
  from endpoint_cached [OF ep this, of t4]
  have "endpoint ?st1 u t3 t4 = (ActivityResponse a, ?st1)" by simp
  with first show "case endpoint st u t1 t2 of (r1, st1) \<Rightarrow>
               case endpoint st1 u t3 t4 of (r2, st2) \<Rightarrow>
                 r1 = ActivityResponse a \<and> r2 = ActivityResponse a \<and>
                 store_reads st2 = store_reads st + 1"
    by simp
next
  let ?st1 = "st\<lparr>store_reads := store_reads st + 1,
                  CACHE := (CACHE st)(mk u \<mapsto> \<lparr>ce_activity = a, ce_timestamp = t2\<rparr>)\<rparr>"
  assume h: "\<not> cache_fresh st (mk u) t1 \<and> ACTIVITY_STORE st (mk u) = Some a \<and> \<not> t3 - t2 < CACHE_TTL"
  with ep have first: "endpoint st u t1 t2 = (ActivityResponse a, ?st1)"
    by (simp add: endpoint_store_hit)
  have "\<not> cache_fresh ?st1 (mk u) t3" "ACTIVITY_STORE ?st1 (mk u) = Some a"
    using h by (simp_all add: cache_fresh_def)
  from endpoint_store_hit [OF ep this, of t4]
  have "endpoint ?st1 u t3 t4 =
          (ActivityResponse a,
           ?st1\<lparr>store_reads := store_reads ?st1 + 1,
               CACHE := (CACHE ?st1)(mk u \<mapsto> \<lparr>ce_activity = a, ce_timestamp = t4\<rparr>)\<rparr>)" .
  with first show "case endpoint st u t1 t2 of (r1, st1) \<Rightarrow>
               case endpoint st1 u t3 t4 of (r2, st2) \<Rightarrow>
                 r1 = ActivityResponse a \<and> r2 = ActivityResponse a \<and>
                 store_reads st2 = store_reads st + 2 \<and>
                 ACTIVITY_STORE st2 = ACTIVITY_STORE st"
    by simp
qed

theorem read_through_cache_witness:
  "(case get_note_endpoint
           (initial_state\<lparr>ACTIVITY_STORE := [notes_uri 5 \<mapsto> NoteActivity
              \<lparr>note_id = notes_uri 5, attributedTo = actor_id, inReplyTo = None,
               content = usage_help, note_to = [], note_tag = []\<rparr>]\<rparr>) 5 0 1 of
      (r1, st1) \<Rightarrow>
        case get_note_endpoint st1 5 100 101 of
          (r2, st2) \<Rightarrow>
            r1 = r2 \<and> status_code r1 = 200 \<and> store_reads st2 = 1)"
proof -
  let ?a = "NoteActivity \<lparr>note_id = notes_uri 5, attributedTo = actor_id, inReplyTo = None,
               content = usage_help, note_to = [], note_tag = []\<rparr>"
  let ?st = "initial_state\<lparr>ACTIVITY_STORE := [notes_uri 5 \<mapsto> ?a]\<rparr>"
  have ep: "get_note_endpoint = get_note_endpoint \<and> notes_uri = notes_uri \<or>
            get_note_endpoint = get_create_endpoint \<and> notes_uri = creates_uri" by simp
  have pre: "\<not> cache_fresh ?st (notes_uri 5) 0 \<and> ACTIVITY_STORE ?st (notes_uri 5) = Some ?a \<and>
             (100::int) - 1 < CACHE_TTL"
    by (simp add: cache_fresh_def initial_state_def CACHE_TTL_def us_per_second_def)
  have "case get_note_endpoint ?st 5 0 1 of
          (r1, st1) \<Rightarrow>
            case get_note_endpoint st1 5 100 101 of
              (r2, st2) \<Rightarrow>
                r1 = ActivityResponse ?a \<and> r2 = ActivityResponse ?a \<and>
                store_reads st2 = store_reads ?st + 1"
    using read_through_cache [OF ep, where st = ?st and u = 5 and ?t1.0 = 0 and ?t2.0 = 1
        and ?t3.0 = 100 and ?t4.0 = 101 and a = ?a,
        THEN conjunct2, THEN conjunct2, THEN conjunct2, THEN conjunct1, THEN mp, OF pre] .
  then show ?thesis
    by (auto simp: initial_state_def split: prod.splits)
qed

section \<open>UUID texts and URI shapes\<close>

lemma hex_digit_is_hex: "is_hex_char (hex_digit n)"
proof -
  have "n mod 16 < length ''0123456789abcdef''" by simp
  then have "''0123456789abcdef'' ! (n mod 16) \<in> set ''0123456789abcdef''"
    by (rule nth_mem)
  then show ?thesis by (simp only: is_hex_char_def hex_digit_def)
qed

lemma hex32_length: "length (hex32 u) = 32"
  by (simp add: hex32_def)

lemma hex32_all_hex: "list_all is_hex_char (hex32 u)"
  by (simp add: hex32_def list_all_iff hex_digit_is_hex)

lemma list_all_take: "list_all P xs \<Longrightarrow> list_all P (take n xs)"
  by (auto simp: list_all_iff dest: in_set_takeD)

lemma list_all_drop: "list_all P xs \<Longrightarrow> list_all P (drop n xs)"
  by (auto simp: list_all_iff dest: in_set_dropD)

lemma uuid_str_is_uuid_text: "is_uuid_text (uuid_str u)"
proof -
  define h where "h = hex32 u"
  have len: "length h = 32" by (simp add: h_def hex32_length)
  have hex: "list_all is_hex_char h" by (simp add: h_def hex32_all_hex)
  have parts: "list_all is_hex_char (take 8 h)" "list_all is_hex_char (take 4 (drop 8 h))"
    "list_all is_hex_char (take 4 (drop 12 h))" "list_all is_hex_char (take 4 (drop 16 h))"
    "list_all is_hex_char (drop 20 h)"
    using hex by (simp_all add: list_all_take list_all_drop)
  show ?thesis
    unfolding is_uuid_text_def uuid_str_def Let_def h_def [symmetric]
    using parts len by simp
qed

lemma notes_uri_shape: "has_activity_uri_shape (notes_uri u)"
  using uuid_str_is_uuid_text [of u]
  by (simp add: has_activity_uri_shape_def notes_uri_def HOST_def Let_def)

lemma creates_uri_shape: "has_activity_uri_shape (creates_uri u)"
  using uuid_str_is_uuid_text [of u]
  by (simp add: has_activity_uri_shape_def creates_uri_def HOST_def Let_def)

lemma notes_creates_distinct: "notes_uri u \<noteq> creates_uri v"
  by (simp add: notes_uri_def creates_uri_def)

lemma hex_digit_inj: "hex_digit m = hex_digit n \<Longrightarrow> m mod 16 = n mod 16"
proof -
  assume "hex_digit m = hex_digit n"
  then have "''0123456789abcdef'' ! (m mod 16) = ''0123456789abcdef'' ! (n mod 16)"
    by (simp only: hex_digit_def)
  moreover have "distinct ''0123456789abcdef''" by simp
  moreover have "m mod 16 < length ''0123456789abcdef''" "n mod 16 < length ''0123456789abcdef''"
    by simp_all
  ultimately show ?thesis by (simp only: nth_eq_iff_index_eq)
qed

lemma nibble_bits:
  fixes u v :: uuid
  assumes "unat (drop_bit (4 * q) u) mod 16 = unat (drop_bit (4 * q) v) mod 16" and "r < 4"
  shows "bit u (4 * q + r) = bit v (4 * q + r)"
proof -
  have low: "bit (unat x mod 16) r = bit x r" for x :: uuid
  proof -
    have "unat x mod 16 = take_bit 4 (unat x)" by (simp add: take_bit_eq_mod)
    then show ?thesis using assms(2) by (simp add: bit_take_bit_iff bit_unsigned_iff)
  qed
  have "bit (drop_bit (4 * q) u) r = bit (drop_bit (4 * q) v) r"
    using assms(1) low by metis
  then show ?thesis by (simp add: bit_drop_bit_eq)
qed

lemma hex32_inj: "hex32 u = hex32 v \<Longrightarrow> u = v"
proof (rule bit_word_eqI)
  fix n
  assume eq: "hex32 u = hex32 v" and n: "n < LENGTH(128)"
  define q where "q = n div 4"
  define r where "r = n mod 4"
  have q: "q < 32" and r: "r < 4" and nqr: "n = 4 * q + r"
    using n by (simp_all add: q_def r_def)
  have i: "31 - q < 32" by simp
  from eq have "hex32 u ! (31 - q) = hex32 v ! (31 - q)" by simp
  moreover have "[0..<32] ! (31 - q) = 31 - q" using i by (simp only: nth_upt add_0)
  moreover have "31 - (31 - q) = q" using q by simp
  moreover have "length [0..<32::nat] = 32" by simp
  ultimately have "hex_digit (unat (drop_bit (4 * q) u) mod 16) = hex_digit (unat (drop_bit (4 * q) v) mod 16)"
    using i unfolding hex32_def by (simp only: nth_map)
  then have "unat (drop_bit (4 * q) u) mod 16 = unat (drop_bit (4 * q) v) mod 16"
    by (auto dest: hex_digit_inj)
  from nibble_bits [OF this r] show "bit u n = bit v n" by (simp add: nqr)
qed

lemma uuid_str_inj: "uuid_str u = uuid_str v \<Longrightarrow> u = v"
proof -
  assume eq: "uuid_str u = uuid_str v"
  define h where "h = hex32 u"
  define k where "k = hex32 v"
  have len: "length h = 32" "length k = 32" by (simp_all add: h_def k_def hex32_length)
  from eq have e: "take 8 h = take 8 k" "take 4 (drop 8 h) = take 4 (drop 8 k)"
    "take 4 (drop 12 h) = take 4 (drop 12 k)" "take 4 (drop 16 h) = take 4 (drop 16 k)"
    "drop 20 h = drop 20 k"
    unfolding uuid_str_def Let_def h_def [symmetric] k_def [symmetric] using len by simp_all
  have split: "xs = take 8 xs @ take 4 (drop 8 xs) @ take 4 (drop 12 xs) @ take 4 (drop 16 xs) @ drop 20 xs"
    for xs :: string
  proof -
    have "take 12 xs = take 8 xs @ take 4 (drop 8 xs)" using take_add [of 8 4 xs] by simp
    moreover have "take 16 xs = take 12 xs @ take 4 (drop 12 xs)" using take_add [of 12 4 xs] by simp
    moreover have "take 20 xs = take 16 xs @ take 4 (drop 16 xs)" using take_add [of 16 4 xs] by simp
    moreover have "xs = take 20 xs @ drop 20 xs" by simp
    ultimately show ?thesis by (metis append.assoc)
  qed
  have "h = k" using split [of h] split [of k] e by simp
  then show ?thesis by (simp add: h_def k_def hex32_inj)
qed

section \<open>Effects of the handlers\<close>

lemma keys_main: "get_keys_for_actor pk (''https://'' @ HOST @ ''/actor'') = [main_key pk]"
  by (simp add: get_keys_for_actor_def actor_id_def main_key_def)

lemma send_reminder_effect:
  assumes "send_reminder e pk st task = (r, st')"
  shows "CACHE st' = CACHE st \<and> store_reads st' = store_reads st \<and> tasks st' = tasks st \<and>
     ((st' = st \<and> r = Inl AttributeError) \<or>
      (\<exists>n c a. ACTIVITY_STORE st' =
                  (ACTIVITY_STORE st)(note_id n \<mapsto> NoteActivity n, create_id c \<mapsto> CreateActivity c) \<and>
         sent st' = sent st @ [\<lparr>d_keys = [main_key pk], d_target = a, d_activity = CreateActivity c\<rparr>] \<and>
         create_object c = n \<and>
         note_id n = notes_uri (uuid4 e (uuid_calls st)) \<and>
         create_id c = creates_uri (uuid4 e (Suc (uuid_calls st))) \<and>
         uuid_calls st' = uuid_calls st + 2))"
  using assms
  unfolding send_reminder_def keys_main ctx_send_def Let_def
  by (auto split: fetch_result.splits option.splits)

lemma on_create_activity_effect:
  assumes "on_create_activity e pk st activity = (r, st')"
  shows "CACHE st' = CACHE st \<and> store_reads st' = store_reads st \<and>
     ((ACTIVITY_STORE st' = ACTIVITY_STORE st \<and> sent st' = sent st) \<or>
      (\<exists>n c a. ACTIVITY_STORE st' =
                  (ACTIVITY_STORE st)(note_id n \<mapsto> NoteActivity n, create_id c \<mapsto> CreateActivity c) \<and>
         sent st' = sent st @ [\<lparr>d_keys = [main_key pk], d_target = a, d_activity = CreateActivity c\<rparr>] \<and>
         create_object c = n \<and>
         note_id n = notes_uri (uuid4 e (uuid_calls st)) \<and>
         create_id c = creates_uri (uuid4 e (Suc (uuid_calls st))) \<and>
         uuid_calls st' = uuid_calls st + 2))"
  using assms
  unfolding on_create_activity_def keys_main ctx_send_def Let_def
  by (auto split: in_activity.splits in_object.splits option.splits sum.splits
      fetch_result.splits if_splits prod.splits)

lemma on_follow_activity_effect:
  assumes "on_follow_activity e pk st activity = (r, st')"
  shows "CACHE st' = CACHE st \<and> store_reads st' = store_reads st \<and>
         ACTIVITY_STORE st' = ACTIVITY_STORE st"
  using assms
  unfolding on_follow_activity_def keys_main ctx_send_def Let_def
  by (auto split: in_activity.splits fetch_result.splits actor_ref.splits if_splits)

section \<open>The store is keyed by activity identifiers\<close>

lemma keyed_step:
  assumes "keyed st" and "CACHE st' = CACHE st"
    and "ACTIVITY_STORE st' = ACTIVITY_STORE st \<or>
         (\<exists>n c. ACTIVITY_STORE st' =
            (ACTIVITY_STORE st)(note_id n \<mapsto> NoteActivity n, create_id c \<mapsto> CreateActivity c))"
  shows "keyed st'"
  using assms by (auto simp: keyed_def split: if_splits)

lemma keyed_get_note:
  assumes "keyed st" and "get_note_endpoint st u t1 t2 = (resp, st')"
  shows "keyed st' \<and> (\<forall>a. resp = ActivityResponse a \<longrightarrow> activity_id a = notes_uri u)"
  using assms unfolding get_note_endpoint_cases keyed_def
  by (auto split: option.splits if_splits)

lemma keyed_get_create:
  assumes "keyed st" and "get_create_endpoint st u t1 t2 = (resp, st')"
  shows "keyed st' \<and> (\<forall>a. resp = ActivityResponse a \<longrightarrow> activity_id a = creates_uri u)"
  using assms unfolding get_create_endpoint_cases keyed_def
  by (auto split: option.splits if_splits)

lemma reachable_keyed: "reachable pk st \<Longrightarrow> keyed st"
proof (induction rule: reachable.induct)
  case reach_init
  show ?case by (simp add: keyed_def initial_state_def)
next
  case (reach_create st e activity r st')
  from on_create_activity_effect [OF reach_create.hyps(2)]
  have "CACHE st' = CACHE st"
    and "ACTIVITY_STORE st' = ACTIVITY_STORE st \<or>
         (\<exists>n c. ACTIVITY_STORE st' =
            (ACTIVITY_STORE st)(note_id n \<mapsto> NoteActivity n, create_id c \<mapsto> CreateActivity c))"
    by blast+
  with reach_create.IH show ?case by (rule keyed_step)
next
  case (reach_follow st e activity r st')
  from on_follow_activity_effect [OF reach_follow.hyps(2)]
  have "CACHE st' = CACHE st" and "ACTIVITY_STORE st' = ACTIVITY_STORE st" by simp_all
  with reach_follow.IH show ?case by (simp add: keyed_step)
next
  case (reach_fire st i e r' st')
  let ?st = "st\<lparr>tasks := take i (tasks st) @ drop (Suc i) (tasks st)\<rparr>"
  have k: "keyed ?st" using reach_fire.IH by (simp add: keyed_def)
  from send_reminder_effect [OF reach_fire.hyps(3)]
  have "CACHE st' = CACHE ?st"
    and "ACTIVITY_STORE st' = ACTIVITY_STORE ?st \<or>
         (\<exists>n c. ACTIVITY_STORE st' =
            (ACTIVITY_STORE ?st)(note_id n \<mapsto> NoteActivity n, create_id c \<mapsto> CreateActivity c))"
    by blast+
  with k show ?case by (rule keyed_step)
next
  case (reach_get_note st u now_check now_insert resp st')
  then show ?case using keyed_get_note by blast
next
  case (reach_get_create st u now_check now_insert resp st')
  then show ?case using keyed_get_create by blast
qed

text \<open>
  Claim C10. In every state the process can reach, each URI of the store maps to an
  activity whose \<open>id\<close> is that URI, and an activity returned by a fetch endpoint has the
  requested URI as its \<open>id\<close>.
\<close>

theorem store_key_invariant:
  assumes "reachable pk st"
  shows "(\<forall>uri a. ACTIVITY_STORE st uri = Some a \<longrightarrow> activity_id a = uri) \<and>
         (\<forall>u t1 t2 a. fst (get_note_endpoint st u t1 t2) = ActivityResponse a
                        \<longrightarrow> activity_id a = notes_uri u) \<and>
         (\<forall>u t1 t2 a. fst (get_create_endpoint st u t1 t2) = ActivityResponse a
                        \<longrightarrow> activity_id a = creates_uri u)"
proof -
  have k: "keyed st" using assms by (rule reachable_keyed)
  have "activity_id a = notes_uri u" if "fst (get_note_endpoint st u t1 t2) = ActivityResponse a"
    for u t1 t2 a
    using keyed_get_note [OF k prod.collapse [symmetric], of u t1 t2] that by simp
  moreover have "activity_id a = creates_uri u"
    if "fst (get_create_endpoint st u t1 t2) = ActivityResponse a" for u t1 t2 a
    using keyed_get_create [OF k prod.collapse [symmetric], of u t1 t2] that by simp
  ultimately show ?thesis using k by (auto simp: keyed_def)
qed

section \<open>Reminders and replies\<close>

lemma hello_parse: "parse_reminder (command_text ''<p>@reminder hello</p>'') = Inr None"
  by code_simp

lemma hello_mentioned: "is_mentioned (mention_note text)"
  by (simp add: is_mentioned_def mention_note_def)

text \<open>
  Claim C4 does not hold when the re-fetch fails by returning \<open>None\<close>, the outcome the
  Follow handler treats as an unresolvable actor: the value replaces \<open>target_actor\<close>, the
  mention tag then reads \<open>target_actor.id\<close>, and the task ends with \<open>AttributeError\<close>
  before any note is built, stored or sent.
\<close>

theorem refetch_none_aborts_reminder:
  "fetch (env_with FetchNone) (ActorUri (ra_id (t_target alice_task))) = FetchNone \<and>
   send_reminder (env_with FetchNone) ''key'' initial_state alice_task =
     (Inl AttributeError, initial_state)"
  by (simp add: send_reminder_def env_with_def)

text \<open>
  A re-fetch that raises is tolerated: the task goes on with the actor it was given.
\<close>

lemma send_reminder_refetch_raises:
  assumes "fetch e (ActorUri (ra_id (t_target task))) = FetchRaises"
  shows "case send_reminder e pk st task of
           (result, st') \<Rightarrow>
             result = (if send_returns e then Inr () else Inl TransportError) \<and>
             (\<exists>c. sent st' = sent st @ [\<lparr>d_keys = [main_key pk], d_target = t_target task,
                                         d_activity = CreateActivity c\<rparr>] \<and>
                  note_to (create_object c) = [ra_id (t_target task)] \<and>
                  inReplyTo (create_object c) = in_id (t_note task) \<and>
                  ACTIVITY_STORE st' (note_id (create_object c)) =
                    Some (NoteActivity (create_object c)) \<and>
                  ACTIVITY_STORE st' (create_id c) = Some (CreateActivity c))"
  using assms unfolding send_reminder_def keys_main ctx_send_def Let_def
  by (simp add: notes_creates_distinct)

text \<open>
  Claim C5, as stated, fails: for a mention whose text does not parse, a failing fetch of
  the sender ends the handler with an exception, whether the fetch raises or returns
  \<open>None\<close>, and no reply is sent.
\<close>

theorem parse_failure_reply_counterexample:
  "is_mentioned (mention_note ''<p>@reminder hello</p>'') \<and>
   parse_reminder (command_text ''<p>@reminder hello</p>'') = Inr None \<and>
   on_create_activity (env_with FetchRaises) ''key'' initial_state hello_activity =
     (Inl TransportError, initial_state) \<and>
   fst (on_create_activity (env_with FetchNone) ''key'' initial_state hello_activity) =
     Inl AttributeError \<and>
   sent (snd (on_create_activity (env_with FetchNone) ''key'' initial_state hello_activity)) = []"
  using hello_parse
  by (simp add: on_create_activity_def hello_activity_def is_mentioned_def mention_note_def
      env_with_def initial_state_def)

text \<open>
  Claim C5, amended. For a Create of a Note that mentions the bot, has content and whose
  command text does not match, and whose sender is fetched successfully: the handler
  schedules no reminder, stores and sends exactly one Create, signed with the main key,
  whose Note carries the usage help and replies to the incoming note; it answers 202
  unless the delivery call itself raises.
\<close>

theorem parse_failure_reply:
  assumes "is_mentioned note" and "in_content note = Some text"
    and "parse_reminder (command_text text) = Inr None"
    and "fetch e sender = Fetched a"
  shows "case on_create_activity e pk st (CreateIn sender (NoteObject note)) of
           (result, st') \<Rightarrow>
             result = (if send_returns e then Inr (StatusResponse 202) else Inl TransportError) \<and>
             tasks st' = tasks st \<and>
             (\<exists>c. sent st' = sent st @ [\<lparr>d_keys = [main_key pk], d_target = a,
                                         d_activity = CreateActivity c\<rparr>] \<and>
                  content (create_object c) = usage_help \<and>
                  inReplyTo (create_object c) = in_id note \<and>
                  note_to (create_object c) = [ra_id a] \<and>
                  ACTIVITY_STORE st' (create_id c) = Some (CreateActivity c))"
  using assms unfolding on_create_activity_def keys_main ctx_send_def Let_def
  by simp

lemma hello_reply_state:
  "CACHE (snd (on_create_activity (env_with (Fetched alice)) ''key'' initial_state hello_activity)) = Map.empty"
  "\<exists>n. ACTIVITY_STORE (snd (on_create_activity (env_with (Fetched alice)) ''key'' initial_state
           hello_activity)) (notes_uri 0) = Some (NoteActivity n)"
  "sent (snd (on_create_activity (env_with (Fetched alice)) ''key'' initial_state hello_activity)) \<noteq> []"
  "uuid_calls initial_state = 0" "uuid4 (env_with (Fetched alice)) 0 = 0"
  "uuid4 (env_with (Fetched alice)) (Suc 0) = 1"
  "sent initial_state = []"
  using hello_parse
  by (simp_all add: on_create_activity_def hello_activity_def is_mentioned_def mention_note_def
      env_with_def initial_state_def ctx_send_def notes_creates_distinct Let_def)

theorem parse_failure_reply_witness:
  "case on_create_activity (env_with (Fetched alice)) ''key'' initial_state hello_activity of
     (result, st') \<Rightarrow>
       result = Inr (StatusResponse 202) \<and> tasks st' = [] \<and> length (sent st') = 1"
proof -
  have h: "is_mentioned (mention_note ''<p>@reminder hello</p>'')"
    "in_content (mention_note ''<p>@reminder hello</p>'') = Some ''<p>@reminder hello</p>''"
    "parse_reminder (command_text ''<p>@reminder hello</p>'') = Inr None"
    "fetch (env_with (Fetched alice)) (ActorUri (ra_id alice)) = Fetched alice"
    using hello_parse by (simp_all add: is_mentioned_def mention_note_def env_with_def)
  show ?thesis
    using parse_failure_reply [OF h, where pk = "''key''" and st = initial_state]
    by (auto simp: hello_activity_def env_with_def initial_state_def split: prod.splits)
qed

lemma follows_uri_not_shaped:
  "\<not> has_activity_uri_shape (''https://'' @ HOST @ ''/activity/follows/'' @ s)"
  by (simp add: has_activity_uri_shape_def HOST_def Let_def is_uuid_text_def is_hex_char_def)

text \<open>
  Claim C8, as stated, fails for the Accept: its \<open>id\<close> is the host, the path
  \<open>/activity/follows/\<close> and the printed follower, with no UUID in it.
\<close>

theorem activity_uri_shape_counterexample:
  "map d_activity (sent (snd (on_follow_activity (env_with (Fetched alice)) ''key'' initial_state
      (FollowIn (ActorUri (ra_id alice)))))) =
     [AcceptActivity
        \<lparr>accept_id = ''https://apsig.amase.cc/activity/follows/Person(id=https://example.org/users/alice)'',
         accept_actor = actor_id,
         accept_object = FollowIn (ActorUri (ra_id alice))\<rparr>] \<and>
   \<not> has_activity_uri_shape
       ''https://apsig.amase.cc/activity/follows/Person(id=https://example.org/users/alice)''"
proof -
  have "\<not> has_activity_uri_shape
       ''https://apsig.amase.cc/activity/follows/Person(id=https://example.org/users/alice)''"
    by code_simp
  then show ?thesis
    by (simp add: on_follow_activity_def env_with_def initial_state_def ctx_send_def HOST_def
        alice_def)
qed

text \<open>
  Claim C8, amended. Whenever the Create handler or a firing reminder creates records, it
  creates one Note and one Create, stored under and sent with the identifiers
  \<open>https://apsig.amase.cc/notes/<uuid>\<close> and \<open>https://apsig.amase.cc/creates/<uuid>\<close>, each
  with the value of its own \<open>uuid4\<close> call; both have the shape \<open>scheme://host/<kind>/<uuid>\<close>,
  they differ from each other, and different UUIDs give different URIs.
\<close>

theorem created_activity_uris:
  assumes "on_create_activity e pk st activity = (r, st') \<or>
           send_reminder e pk st task = (r', st')"
  shows "((ACTIVITY_STORE st' = ACTIVITY_STORE st \<and> sent st' = sent st) \<or>
          (\<exists>n c a. ACTIVITY_STORE st' =
                      (ACTIVITY_STORE st)(note_id n \<mapsto> NoteActivity n,
                                          create_id c \<mapsto> CreateActivity c) \<and>
             sent st' = sent st @ [\<lparr>d_keys = [main_key pk], d_target = a,
                                     d_activity = CreateActivity c\<rparr>] \<and>
             create_object c = n \<and>
             note_id n = notes_uri (uuid4 e (uuid_calls st)) \<and>
             create_id c = creates_uri (uuid4 e (Suc (uuid_calls st))) \<and>
             uuid_calls st' = uuid_calls st + 2 \<and>
             has_activity_uri_shape (note_id n) \<and> has_activity_uri_shape (create_id c) \<and>
             note_id n \<noteq> create_id c)) \<and>
         (\<forall>u v. (notes_uri u = notes_uri v) = (u = v)) \<and>
         (\<forall>u v. (creates_uri u = creates_uri v) = (u = v))"
proof (intro conjI)
  have eff: "(ACTIVITY_STORE st' = ACTIVITY_STORE st \<and> sent st' = sent st) \<or>
          (\<exists>n c a. ACTIVITY_STORE st' =
                      (ACTIVITY_STORE st)(note_id n \<mapsto> NoteActivity n,
                                          create_id c \<mapsto> CreateActivity c) \<and>
             sent st' = sent st @ [\<lparr>d_keys = [main_key pk], d_target = a,
                                     d_activity = CreateActivity c\<rparr>] \<and>
             create_object c = n \<and>
             note_id n = notes_uri (uuid4 e (uuid_calls st)) \<and>
             create_id c = creates_uri (uuid4 e (Suc (uuid_calls st))) \<and>
             uuid_calls st' = uuid_calls st + 2)"
    using assms
  proof
    assume "on_create_activity e pk st activity = (r, st')"
    from on_create_activity_effect [OF this] show ?thesis by blast
  next
    assume "send_reminder e pk st task = (r', st')"
    from send_reminder_effect [OF this] show ?thesis by blast
  qed
  then show "(ACTIVITY_STORE st' = ACTIVITY_STORE st \<and> sent st' = sent st) \<or>
          (\<exists>n c a. ACTIVITY_STORE st' =
                      (ACTIVITY_STORE st)(note_id n \<mapsto> NoteActivity n,
                                          create_id c \<mapsto> CreateActivity c) \<and>
             sent st' = sent st @ [\<lparr>d_keys = [main_key pk], d_target = a,
                                     d_activity = CreateActivity c\<rparr>] \<and>
             create_object c = n \<and>
             note_id n = notes_uri (uuid4 e (uuid_calls st)) \<and>
             create_id c = creates_uri (uuid4 e (Suc (uuid_calls st))) \<and>
             uuid_calls st' = uuid_calls st + 2 \<and>
             has_activity_uri_shape (note_id n) \<and> has_activity_uri_shape (create_id c) \<and>
             note_id n \<noteq> create_id c)"
  proof
    assume "ACTIVITY_STORE st' = ACTIVITY_STORE st \<and> sent st' = sent st"
    then show ?thesis by (rule disjI1)
  next
    assume "\<exists>n c a. ACTIVITY_STORE st' =
                      (ACTIVITY_STORE st)(note_id n \<mapsto> NoteActivity n,
                                          create_id c \<mapsto> CreateActivity c) \<and>
             sent st' = sent st @ [\<lparr>d_keys = [main_key pk], d_target = a,
                                     d_activity = CreateActivity c\<rparr>] \<and>
             create_object c = n \<and>
             note_id n = notes_uri (uuid4 e (uuid_calls st)) \<and>
             create_id c = creates_uri (uuid4 e (Suc (uuid_calls st))) \<and>
             uuid_calls st' = uuid_calls st + 2"
    then obtain n c a where
      p: "ACTIVITY_STORE st' =
            (ACTIVITY_STORE st)(note_id n \<mapsto> NoteActivity n, create_id c \<mapsto> CreateActivity c)"
         "sent st' = sent st @ [\<lparr>d_keys = [main_key pk], d_target = a,
                                  d_activity = CreateActivity c\<rparr>]"
         "create_object c = n"
         "note_id n = notes_uri (uuid4 e (uuid_calls st))"
         "create_id c = creates_uri (uuid4 e (Suc (uuid_calls st)))"
         "uuid_calls st' = uuid_calls st + 2"
      by blast
    have "has_activity_uri_shape (note_id n)" "has_activity_uri_shape (create_id c)"
      "note_id n \<noteq> create_id c"
      by (simp_all add: p(4,5) notes_uri_shape creates_uri_shape notes_creates_distinct)
    with p show ?thesis by blast
  qed
next
  show "\<forall>u v. (notes_uri u = notes_uri v) = (u = v)"
    by (auto simp: notes_uri_def dest: uuid_str_inj)
next
  show "\<forall>u v. (creates_uri u = creates_uri v) = (u = v)"
    by (auto simp: creates_uri_def dest: uuid_str_inj)
qed

theorem created_activity_uris_witness:
  "\<exists>c. map d_activity (sent (snd (on_create_activity (env_with (Fetched alice)) ''key''
            initial_state hello_activity))) = [CreateActivity c] \<and>
        note_id (create_object c) = notes_uri 0 \<and> create_id c = creates_uri 1 \<and>
        has_activity_uri_shape (note_id (create_object c)) \<and>
        has_activity_uri_shape (create_id c)"
proof -
  let ?run = "on_create_activity (env_with (Fetched alice)) ''key'' initial_state hello_activity"
  have run: "?run = (fst ?run, snd ?run) \<or>
             send_reminder (env_with (Fetched alice)) ''key'' initial_state alice_task =
               (Inr (), snd ?run)"
    by simp
  from created_activity_uris [OF run, THEN conjunct1] hello_reply_state(3,4,5,6,7)
  show ?thesis by auto
qed

theorem store_key_invariant_witness:
  "\<exists>a. fst (get_note_endpoint
             (snd (on_create_activity (env_with (Fetched alice)) ''key'' initial_state
                     hello_activity)) 0 0 0) = ActivityResponse a \<and>
        activity_id a = notes_uri 0"
proof -
  let ?st = "snd (on_create_activity (env_with (Fetched alice)) ''key'' initial_state hello_activity)"
  have "reachable ''key'' ?st"
    by (rule reach_create [OF reach_init, where e = "env_with (Fetched alice)"
          and activity = hello_activity
          and r = "fst (on_create_activity (env_with (Fetched alice)) ''key'' initial_state
                          hello_activity)"])
       simp
  from store_key_invariant [OF this]
  have inv: "\<forall>u t1 t2 a. fst (get_note_endpoint ?st u t1 t2) = ActivityResponse a
                        \<longrightarrow> activity_id a = notes_uri u"
    by blast
  obtain n where "ACTIVITY_STORE ?st (notes_uri 0) = Some (NoteActivity n)"
    using hello_reply_state(2) by blast
  then have "fst (get_note_endpoint ?st 0 0 0) = ActivityResponse (NoteActivity n)"
    by (simp add: get_note_endpoint_cases hello_reply_state(1))
  with inv show ?thesis by blast
qed

end
